theory Spec2Isabelle
  imports Main "HOL-Library.Word"
begin

section \<open>Data model of HTLCMultiSig.sol\<close>

text \<open>
  Solidity's value types: an \<open>address\<close> is 160 bits, \<open>bytes32\<close> and \<open>uint256\<close> are
  256 bits, \<open>bytes\<close> is a byte string.
\<close>

type_synonym address = "160 word"
type_synonym bytes32 = "256 word"
type_synonym uint256 = "256 word"
type_synonym bytes = "8 word list"

text \<open>\<^verbatim>\<open>enum Status { Uninitialized, Locked, Completed, Refunded }\<close>\<close>

datatype Status = Uninitialized | Locked | Completed | Refunded

text \<open>\<^verbatim>\<open>struct Trade\<close>, field by field.\<close>

record Trade =
  buyer :: address
  seller :: address
  arbiter :: address
  amount :: uint256
  hashLock :: bytes32
  timelock :: uint256
  status :: Status

text \<open>
  The three events of the contract. \<open>LockedEvent\<close> and \<open>RefundedEvent\<close> are the events
  \<^verbatim>\<open>Locked\<close> and \<^verbatim>\<open>Refunded\<close>, renamed because the enum has members of the same
  names.
\<close>

datatype event =
    LockedEvent bytes32 address address uint256 bytes32 uint256
  | Withdrawn bytes32 address string
  | RefundedEvent bytes32 address

text \<open>
  What a call does to the outside, in the order in which it does it: an event emitted,
  or an amount of the native currency sent to an address.
\<close>

datatype effect = Emit event | Transfer address uint256

text \<open>
  The contract's state: the mapping \<^verbatim>\<open>trades\<close> (a Solidity mapping is total, every key
  not yet written holds the all-zero struct), the contract's own balance, the flag of
  OpenZeppelin's \<^verbatim>\<open>ReentrancyGuard\<close>, and the effects issued so far.
\<close>

record state =
  trades :: "bytes32 \<Rightarrow> Trade"
  balance :: nat
  entered :: bool
  trace :: "effect list"

definition zero_trade :: Trade where
  "zero_trade = \<lparr>buyer = 0, seller = 0, arbiter = 0, amount = 0, hashLock = 0,
     timelock = 0, status = Uninitialized\<rparr>"

definition init :: state where
  "init = \<lparr>trades = (\<lambda>_. zero_trade), balance = 0, entered = False, trace = []\<rparr>"

text \<open>
  Every way a call can revert. The first nine are the \<^verbatim>\<open>require\<close>s of the contract,
  named as the specification names them; the revert strings of the source are, in this
  order: "Amount must be greater than 0", "Trade ID already exists", "Invalid addresses",
  "Invalid status", "Invalid preimage", "Missing required signatures from buyer and
  seller", "Invalid recipient", "Need 2-of-3 signatures", "Timelock not expired". The last
  four come from what the contract calls: \<^verbatim>\<open>ECDSA.recover\<close>, the checked addition of
  Solidity 0.8, the \<^verbatim>\<open>nonReentrant\<close> modifier and \<^verbatim>\<open>transfer\<close>.
\<close>

datatype error =
    ZeroAmount
  | DuplicateTradeId
  | InvalidAddress
  | InvalidState
  | InvalidPreimage
  | MissingRequiredSignature
  | InvalidRecipient
  | InsufficientDistinctSignatures
  | TimelockNotExpired
  | InvalidSignatureEncoding
  | ArithmeticOverflow
  | ReentrantCall
  | TransferFailed

text \<open>
  What the contract uses and does not define: the two hash functions, signature recovery
  (\<open>None\<close> for a signature that does not decode), and the code of the recipient of a
  \<^verbatim>\<open>transfer\<close>. The recipient runs with the 2300 gas stipend, which is too little to
  write storage or to send value: it can look at the contract as it is at that moment,
  and then accept the payment or revert.
\<close>

record env =
  keccak256 :: "bytes \<Rightarrow> bytes32"
  sha256 :: "bytes \<Rightarrow> bytes32"
  ecrecover :: "bytes32 \<Rightarrow> bytes \<Rightarrow> address option"
  recv :: "address \<Rightarrow> uint256 \<Rightarrow> state \<Rightarrow> bool"

text \<open>\<^verbatim>\<open>msg.sender\<close>, \<^verbatim>\<open>msg.value\<close> and \<^verbatim>\<open>block.timestamp\<close> of a call.\<close>

record call =
  msg_sender :: address
  msg_value :: uint256
  block_timestamp :: uint256

section \<open>Encoding and message digests\<close>

text \<open>
  \<^verbatim>\<open>abi.encodePacked\<close> writes a \<open>bytes32\<close> as its 32 bytes and an \<open>address\<close> as its 20
  bytes, most significant byte first, and concatenates.
\<close>

definition byte_at :: "'a::len word \<Rightarrow> nat \<Rightarrow> 8 word" where
  "byte_at w i = ucast (drop_bit (8 * i) w)"

definition be_bytes :: "nat \<Rightarrow> 'a::len word \<Rightarrow> bytes" where
  "be_bytes n w = map (byte_at w) (rev [0..<n])"

definition encode_bytes32 :: "bytes32 \<Rightarrow> bytes" where
  "encode_bytes32 w = be_bytes 32 w"

definition encode_address :: "address \<Rightarrow> bytes" where
  "encode_address a = be_bytes 20 a"

text \<open>
  OpenZeppelin's \<^verbatim>\<open>MessageHashUtils.toEthSignedMessageHash(bytes32)\<close>:
  \<^verbatim>\<open>keccak256("\x19Ethereum Signed Message:\n32" ++ hash)\<close>.
\<close>

definition eth_prefix :: bytes where
  "eth_prefix = [0x19] @ map of_char ''Ethereum Signed Message:'' @ [0x0A, 0x33, 0x32]"

definition toEthSignedMessageHash :: "env \<Rightarrow> bytes32 \<Rightarrow> bytes32" where
  "toEthSignedMessageHash e h = keccak256 e (eth_prefix @ encode_bytes32 h)"

text \<open>\<^verbatim>\<open>abi.encodePacked(_tradeId, _preimage)\<close> and \<^verbatim>\<open>abi.encodePacked(_tradeId, _recipient)\<close>.\<close>

definition preimage_message :: "bytes32 \<Rightarrow> bytes32 \<Rightarrow> bytes" where
  "preimage_message tid pre = encode_bytes32 tid @ encode_bytes32 pre"

definition arbitration_message :: "bytes32 \<Rightarrow> address \<Rightarrow> bytes" where
  "arbitration_message tid rcp = encode_bytes32 tid @ encode_address rcp"

text \<open>The \<^verbatim>\<open>messageHash\<close> of \<^verbatim>\<open>withdrawWithPreimage\<close> and of \<^verbatim>\<open>resolveDispute\<close>.\<close>

definition preimage_digest :: "env \<Rightarrow> bytes32 \<Rightarrow> bytes32 \<Rightarrow> bytes32" where
  "preimage_digest e tid pre =
     toEthSignedMessageHash e (keccak256 e (preimage_message tid pre))"

definition arbitration_digest :: "env \<Rightarrow> bytes32 \<Rightarrow> address \<Rightarrow> bytes32" where
  "arbitration_digest e tid rcp =
     toEthSignedMessageHash e (keccak256 e (arbitration_message tid rcp))"

text \<open>
  OpenZeppelin's \<^verbatim>\<open>ECDSA.recover\<close>: reverts on a signature that does not decode and on
  a recovered zero address, and returns the signer otherwise.
\<close>

definition recover :: "env \<Rightarrow> bytes32 \<Rightarrow> bytes \<Rightarrow> error + address" where
  "recover e h sg =
     (case ecrecover e h sg of
        None \<Rightarrow> Inl InvalidSignatureEncoding
      | Some a \<Rightarrow> if a = 0 then Inl InvalidSignatureEncoding else Inr a)"






section \<open>The operations\<close>

text \<open>
  A call returns \<open>Inl\<close> of the reason when it reverts, and then the state is the one
  before the call; it returns \<open>Inr\<close> of the new state otherwise.
\<close>

text \<open>
  \<^verbatim>\<open>lock\<close>, payable and not guarded against reentrancy. The three \<^verbatim>\<open>require\<close>s in
  the order of the source, then the checked addition \<^verbatim>\<open>block.timestamp + _lockTime\<close>,
  then the write and the event. The value sent with the call is in the contract's balance
  when the call returns.
\<close>

definition lock ::
  "call \<Rightarrow> bytes32 \<Rightarrow> address \<Rightarrow> address \<Rightarrow> bytes32 \<Rightarrow> uint256 \<Rightarrow> state \<Rightarrow> error + state" where
  "lock c tid sl ar hl lockTime s =
     (if \<not> 0 < msg_value c then Inl ZeroAmount
      else if status (trades s tid) \<noteq> Uninitialized then Inl DuplicateTradeId
      else if \<not> (sl \<noteq> 0 \<and> ar \<noteq> 0) then Inl InvalidAddress
      else if 2 ^ 256 \<le> unat (block_timestamp c) + unat lockTime then Inl ArithmeticOverflow
      else
        let t = \<lparr>buyer = msg_sender c, seller = sl, arbiter = ar, amount = msg_value c,
                 hashLock = hl, timelock = block_timestamp c + lockTime, status = Locked\<rparr>
        in Inr (s\<lparr>trades := (trades s)(tid := t),
                  balance := balance s + unat (msg_value c),
                  trace := trace s @ [Emit (LockedEvent tid (msg_sender c) sl (msg_value c) hl
                                             (timelock t))]\<rparr>))"

text \<open>
  The modifier \<^verbatim>\<open>nonReentrant\<close>: revert when the flag is set; otherwise set it, run the
  body, clear it.
\<close>

definition nonReentrant :: "(state \<Rightarrow> error + state) \<Rightarrow> state \<Rightarrow> error + state" where
  "nonReentrant body s =
     (if entered s then Inl ReentrantCall
      else case body (s\<lparr>entered := True\<rparr>) of
             Inl err \<Rightarrow> Inl err
           | Inr s' \<Rightarrow> Inr (s'\<lparr>entered := False\<rparr>))"

text \<open>The write \<^verbatim>\<open>trade.status = ...\<close> through the storage reference.\<close>

definition set_status :: "bytes32 \<Rightarrow> Status \<Rightarrow> state \<Rightarrow> state" where
  "set_status tid st s = s\<lparr>trades := (trades s)(tid := (trades s tid)\<lparr>status := st\<rparr>)\<rparr>"

text \<open>
  \<^verbatim>\<open>payable(to).transfer(amt)\<close>: reverts when the contract's balance is too small; the
  amount leaves the balance, the recipient's code runs on the state as it is then, and
  the call reverts when the recipient does.
\<close>

definition transfer :: "env \<Rightarrow> address \<Rightarrow> uint256 \<Rightarrow> state \<Rightarrow> error + state" where
  "transfer e to amt s =
     (if balance s < unat amt then Inl TransferFailed
      else
        let s' = s\<lparr>balance := balance s - unat amt\<rparr>
        in if recv e to amt s' then Inr (s'\<lparr>trace := trace s' @ [Transfer to amt]\<rparr>)
           else Inl TransferFailed)"

definition emit :: "event \<Rightarrow> state \<Rightarrow> state" where
  "emit ev s = s\<lparr>trace := trace s @ [Emit ev]\<rparr>"

text \<open>\<^verbatim>\<open>withdrawWithPreimage\<close> (path A).\<close>

definition withdrawWithPreimage ::
  "env \<Rightarrow> bytes32 \<Rightarrow> bytes32 \<Rightarrow> bytes \<Rightarrow> bytes \<Rightarrow> state \<Rightarrow> error + state" where
  "withdrawWithPreimage e tid pre sig1 sig2 =
     nonReentrant (\<lambda>s.
       let trade = trades s tid in
       if status trade \<noteq> Locked then Inl InvalidState
       else if sha256 e (encode_bytes32 pre) \<noteq> hashLock trade then Inl InvalidPreimage
       else
         case recover e (preimage_digest e tid pre) sig1 of
           Inl err \<Rightarrow> Inl err
         | Inr signer1 \<Rightarrow>
        (case recover e (preimage_digest e tid pre) sig2 of
           Inl err \<Rightarrow> Inl err
         | Inr signer2 \<Rightarrow>
           let hasBuyer = (signer1 = buyer trade \<or> signer2 = buyer trade);
               hasSeller = (signer1 = seller trade \<or> signer2 = seller trade)
           in if \<not> (hasBuyer \<and> hasSeller) then Inl MissingRequiredSignature
              else
               (case transfer e (seller trade) (amount trade) (set_status tid Completed s) of
                  Inl err \<Rightarrow> Inl err
                | Inr s' \<Rightarrow>
                    Inr (emit (Withdrawn tid (seller trade) ''Preimage + MultiSig'') s'))))"

text \<open>
  The two loops of \<^verbatim>\<open>resolveDispute\<close>. The pair carried through them is
  \<^verbatim>\<open>(validSignatures, lastSigner)\<close>. The inner loop runs over the participants and
  stops at the first one that matches (\<^verbatim>\<open>break\<close>); the outer loop runs over the signers.
\<close>

fun match_participants :: "address \<Rightarrow> address list \<Rightarrow> nat \<times> address \<Rightarrow> nat \<times> address" where
  "match_participants sg [] (valid, lastSigner) = (valid, lastSigner)"
| "match_participants sg (p # ps) (valid, lastSigner) =
     (if sg = p \<and> sg \<noteq> lastSigner then (valid + 1, sg)
      else match_participants sg ps (valid, lastSigner))"

fun count_signers :: "address list \<Rightarrow> address list \<Rightarrow> nat \<times> address \<Rightarrow> nat \<times> address" where
  "count_signers [] ps acc = acc"
| "count_signers (sg # sgs) ps acc = count_signers sgs ps (match_participants sg ps acc)"

definition validSignatures :: "Trade \<Rightarrow> address \<Rightarrow> address \<Rightarrow> nat" where
  "validSignatures trade signer1 signer2 =
     fst (count_signers [signer1, signer2] [buyer trade, seller trade, arbiter trade] (0, 0))"

text \<open>\<^verbatim>\<open>resolveDispute\<close> (path B).\<close>

definition resolveDispute ::
  "env \<Rightarrow> bytes32 \<Rightarrow> address \<Rightarrow> bytes \<Rightarrow> bytes \<Rightarrow> state \<Rightarrow> error + state" where
  "resolveDispute e tid rcp sig1 sig2 =
     nonReentrant (\<lambda>s.
       let trade = trades s tid in
       if status trade \<noteq> Locked then Inl InvalidState
       else if \<not> (rcp = buyer trade \<or> rcp = seller trade) then Inl InvalidRecipient
       else
         case recover e (arbitration_digest e tid rcp) sig1 of
           Inl err \<Rightarrow> Inl err
         | Inr signer1 \<Rightarrow>
        (case recover e (arbitration_digest e tid rcp) sig2 of
           Inl err \<Rightarrow> Inl err
         | Inr signer2 \<Rightarrow>
           if \<not> 2 \<le> validSignatures trade signer1 signer2
           then Inl InsufficientDistinctSignatures
           else
            (case transfer e rcp (amount trade) (set_status tid Completed s) of
               Inl err \<Rightarrow> Inl err
             | Inr s' \<Rightarrow> Inr (emit (Withdrawn tid rcp ''Arbitration'') s'))))"

text \<open>\<^verbatim>\<open>refund\<close>; \<open>now\<close> is \<^verbatim>\<open>block.timestamp\<close>.\<close>

definition refund :: "env \<Rightarrow> uint256 \<Rightarrow> bytes32 \<Rightarrow> state \<Rightarrow> error + state" where
  "refund e now tid =
     nonReentrant (\<lambda>s.
       let trade = trades s tid in
       if status trade \<noteq> Locked then Inl InvalidState
       else if \<not> timelock trade \<le> now then Inl TimelockNotExpired
       else
         case transfer e (buyer trade) (amount trade) (set_status tid Refunded s) of
           Inl err \<Rightarrow> Inl err
         | Inr s' \<Rightarrow> Inr (emit (RefundedEvent tid (buyer trade)) s'))"

text \<open>
  When a \<^verbatim>\<open>transfer\<close> issued in state \<open>s\<close> goes through: the balance covers the
  amount and the recipient, looking at the contract after the amount has left it,
  accepts.
\<close>

definition deliverable :: "env \<Rightarrow> address \<Rightarrow> uint256 \<Rightarrow> state \<Rightarrow> bool" where
  "deliverable e to amt s \<longleftrightarrow>
     unat amt \<le> balance s \<and> recv e to amt (s\<lparr>balance := balance s - unat amt\<rparr>)"

section \<open>Calls and runs\<close>

text \<open>
  The four external functions as one type of calls. \<open>exec\<close> dispatches; \<open>step\<close> is
  the state after a call, which is the state before it when the call reverts; \<open>run\<close>
  is a sequence of calls, each a transaction of its own.
\<close>

datatype op =
    Lock call bytes32 address address bytes32 uint256
  | WithdrawWithPreimage bytes32 bytes32 bytes bytes
  | ResolveDispute bytes32 address bytes bytes
  | Refund uint256 bytes32

fun exec :: "env \<Rightarrow> op \<Rightarrow> state \<Rightarrow> error + state" where
  "exec e (Lock c tid sl ar hl lockTime) s = lock c tid sl ar hl lockTime s"
| "exec e (WithdrawWithPreimage tid pre sig1 sig2) s = withdrawWithPreimage e tid pre sig1 sig2 s"
| "exec e (ResolveDispute tid rcp sig1 sig2) s = resolveDispute e tid rcp sig1 sig2 s"
| "exec e (Refund now tid) s = refund e now tid s"

definition step :: "env \<Rightarrow> op \<Rightarrow> state \<Rightarrow> state" where
  "step e c s = (case exec e c s of Inl err \<Rightarrow> s | Inr s' \<Rightarrow> s')"

fun run :: "env \<Rightarrow> op list \<Rightarrow> state \<Rightarrow> state" where
  "run e [] s = s"
| "run e (c # cs) s = run e cs (step e c s)"

text \<open>Which trade a call is about, and which function it calls.\<close>

fun trade_of :: "op \<Rightarrow> bytes32" where
  "trade_of (Lock c tid sl ar hl lockTime) = tid"
| "trade_of (WithdrawWithPreimage tid pre sig1 sig2) = tid"
| "trade_of (ResolveDispute tid rcp sig1 sig2) = tid"
| "trade_of (Refund now tid) = tid"

datatype entry = LockFn | WithdrawFn | ResolveFn | RefundFn

fun entry_of :: "op \<Rightarrow> entry" where
  "entry_of (Lock c tid sl ar hl lockTime) = LockFn"
| "entry_of (WithdrawWithPreimage tid pre sig1 sig2) = WithdrawFn"
| "entry_of (ResolveDispute tid rcp sig1 sig2) = ResolveFn"
| "entry_of (Refund now tid) = RefundFn"

definition succeeds :: "error + state \<Rightarrow> bool" where
  "succeeds r = (case r of Inl err \<Rightarrow> False | Inr s' \<Rightarrow> True)"

text \<open>
  The number of calls of a run that pay trade \<open>tid\<close> out: the calls of one of the three
  resolving functions on \<open>tid\<close> that do not revert (each of them issues one transfer).
\<close>

definition pays_out :: "env \<Rightarrow> bytes32 \<Rightarrow> op \<Rightarrow> state \<Rightarrow> bool" where
  "pays_out e tid c s \<longleftrightarrow> entry_of c \<noteq> LockFn \<and> trade_of c = tid \<and> succeeds (exec e c s)"

fun payouts :: "env \<Rightarrow> bytes32 \<Rightarrow> op list \<Rightarrow> state \<Rightarrow> nat" where
  "payouts e tid [] s = 0"
| "payouts e tid (c # cs) s =
     (if pays_out e tid c s then 1 else 0) + payouts e tid cs (step e c s)"

text \<open>
  What the contract holds for a trade (its amount while it is \<open>Locked\<close>, nothing before
  and after), and the sum over all trade ids.
\<close>

definition escrowed :: "Trade \<Rightarrow> nat" where
  "escrowed t = (if status t = Locked then unat (amount t) else 0)"

definition locked_total :: "state \<Rightarrow> nat" where
  "locked_total s = (\<Sum>tid\<in>UNIV. escrowed (trades s tid))"

section \<open>A test environment\<close>

text \<open>
  The parties and the trade of the repository's test file
  (\<^verbatim>\<open>describe("HTLCMultiSig", ...)\<close>), with small numbers in place of the test's
  addresses and hashes: buyer \<open>0xB\<close>, seller \<open>0x5\<close>, arbiter \<open>0xA\<close>, a fourth account
  \<open>0xC\<close>, trade id \<open>1\<close>, hash lock \<open>7\<close>, one hour of lock time, an amount of \<open>1000\<close>.
  In \<open>test_env\<close> the signature \<open>[n]\<close> is the one of account \<open>n\<close> (on every digest),
  every other byte string does not decode, \<open>sha256\<close> of everything is \<open>7\<close>, and every
  recipient accepts a payment.
\<close>

definition test_env :: env where
  "test_env = \<lparr>keccak256 = (\<lambda>_. 0), sha256 = (\<lambda>_. 7),
     ecrecover = (\<lambda>h sg. if sg = [0xB] then Some 0xB else if sg = [0x5] then Some 0x5
                          else if sg = [0xA] then Some 0xA else if sg = [0xC] then Some 0xC
                          else None),
     recv = (\<lambda>to amt s. True)\<rparr>"

definition test_call :: call where
  "test_call = \<lparr>msg_sender = 0xB, msg_value = 1000, block_timestamp = 50\<rparr>"

definition test_trade :: Trade where
  "test_trade = \<lparr>buyer = 0xB, seller = 0x5, arbiter = 0xA, amount = 1000, hashLock = 7,
     timelock = 3650, status = Locked\<rparr>"

text \<open>The state after \<^verbatim>\<open>lock(tradeId, seller, arbiter, hashLock, lockTime)\<close> on a fresh contract.\<close>

definition test_state :: state where
  "test_state = \<lparr>trades = (\<lambda>_. zero_trade)(1 := test_trade), balance = 1000, entered = False,
     trace = [Emit (LockedEvent 1 0xB 0x5 1000 7 3650)]\<rparr>"

text \<open>The same with the buyer's own address as the seller, which \<^verbatim>\<open>lock\<close> accepts.\<close>

definition self_trade :: Trade where
  "self_trade = \<lparr>buyer = 0xB, seller = 0xB, arbiter = 0xA, amount = 1000, hashLock = 7,
     timelock = 3650, status = Locked\<rparr>"

definition self_state :: state where
  "self_state = \<lparr>trades = (\<lambda>_. zero_trade)(1 := self_trade), balance = 1000, entered = False,
     trace = [Emit (LockedEvent 1 0xB 0xB 1000 7 3650)]\<rparr>"

text \<open>An environment in which every recipient is a contract that refuses payments.\<close>

definition refusing_env :: env where
  "refusing_env = test_env\<lparr>recv := (\<lambda>to amt s. False)\<rparr>"

text \<open>
  An environment whose hash tells apart the byte strings of the test (of what
  it hashes it keeps the length, the sum of the byte at index 31 and the last byte but
  one, and the last byte) and whose signatures name their signer and their
  digest: the signature of account \<open>a\<close> on the digest \<open>d\<close> is the byte \<open>a\<close> followed
  by the 32 bytes of \<open>d\<close>, and it recovers on \<open>d\<close> only.
\<close>

definition toy_hash :: "bytes \<Rightarrow> bytes32" where
  "toy_hash m =
     (if length m < 32 then 0
      else of_nat (length m) * 65536 + ucast (m ! 31 + m ! (length m - 2)) * 256
             + ucast (last m))"

definition pair_recover :: "bytes32 \<Rightarrow> bytes \<Rightarrow> address option" where
  "pair_recover h sg =
     (case sg of [] \<Rightarrow> None
      | a # d \<Rightarrow> if d = encode_bytes32 h then Some (ucast a) else None)"

definition sep_env :: env where
  "sep_env = \<lparr>keccak256 = toy_hash, sha256 = (\<lambda>_. 7), ecrecover = pair_recover,
     recv = (\<lambda>to amt s. True)\<rparr>"

section \<open>Basic facts: the encoding\<close>

lemma length_be_bytes: "length (be_bytes n w) = n"
  by (simp add: be_bytes_def)

lemma bit_byte_at: "bit (byte_at w i) j \<longleftrightarrow> j < 8 \<and> bit w (8 * i + j)"
  by (auto simp: byte_at_def bit_ucast_iff bit_drop_bit_eq dest: bit_imp_le_length)

text \<open>The bytes of a word determine it, once there are enough of them.\<close>

lemma be_bytes_inj:
  fixes v w :: "'a::len word"
  assumes "be_bytes n v = be_bytes n w" and "LENGTH('a) \<le> 8 * n"
  shows "v = w"
proof (rule bit_word_eqI)
  fix k assume k: "k < LENGTH('a)"
  have "map (byte_at v) [0..<n] = map (byte_at w) [0..<n]"
    using assms(1) by (simp add: be_bytes_def rev_map [symmetric])
  then have eq: "\<And>i. i < n \<Longrightarrow> byte_at v i = byte_at w i"
    by simp
  have "k div 8 < n" using k assms(2) by auto
  then have "bit (byte_at v (k div 8)) (k mod 8) = bit (byte_at w (k div 8)) (k mod 8)"
    using eq by simp
  then show "bit v k = bit w k"
    by (simp add: bit_byte_at)
qed

lemma encode_bytes32_inj: "encode_bytes32 v = encode_bytes32 w \<Longrightarrow> v = w"
  unfolding encode_bytes32_def by (rule be_bytes_inj [where n = 32]) simp_all


lemma length_encode [simp]:
  "length (encode_bytes32 w) = 32" "length (encode_address a) = 20"
  by (simp_all add: encode_bytes32_def encode_address_def length_be_bytes)




lemma encode_bytes32_eq [simp]: "encode_bytes32 v = encode_bytes32 w \<longleftrightarrow> v = w"
  using encode_bytes32_inj by blast









lemma encode_nonempty [simp]: "encode_bytes32 w \<noteq> []" "encode_address a \<noteq> []"
proof -
  show "encode_bytes32 w \<noteq> []"
  proof
    assume h: "encode_bytes32 w = []"
    have "length (encode_bytes32 w) = 32" by simp
    then show False unfolding h by simp
  qed
  show "encode_address a \<noteq> []"
  proof
    assume h: "encode_address a = []"
    have "length (encode_address a) = 20" by simp
    then show False unfolding h by simp
  qed
qed

lemma length_eth_prefix [simp]: "length eth_prefix = 28"
  by (simp add: eth_prefix_def)


lemma recover_nonzero: "recover e h sg = Inr a \<Longrightarrow> a \<noteq> 0"
  by (auto simp: recover_def split: option.splits if_splits)

lemma recv_update_fields [simp]:
  "preimage_digest (e\<lparr>recv := r\<rparr>) tid pre = preimage_digest e tid pre"
  "arbitration_digest (e\<lparr>recv := r\<rparr>) tid rcp = arbitration_digest e tid rcp"
  "recover (e\<lparr>recv := r\<rparr>) h sg = recover e h sg"
  by (simp_all add: preimage_digest_def arbitration_digest_def toEthSignedMessageHash_def
        recover_def)

section \<open>Basic facts: the operations spelled out\<close>

lemma succeeds_simps [simp]: "succeeds (Inl err) = False" "succeeds (Inr s) = True"
  by (simp_all add: succeeds_def)

lemma deliverable_covered: "deliverable e to amt s \<Longrightarrow> unat amt \<le> balance s"
  by (simp add: deliverable_def)

lemma set_status_fields [simp]:
  "balance (set_status tid st s) = balance s"
  "entered (set_status tid st s) = entered s"
  "trace (set_status tid st s) = trace s"
  "trades (set_status tid st s) = (trades s)(tid := (trades s tid)\<lparr>status := st\<rparr>)"
  by (simp_all add: set_status_def)

lemma transfer_eq:
  "transfer e to amt s =
     (if deliverable e to amt s
      then Inr (s\<lparr>balance := balance s - unat amt, trace := trace s @ [Transfer to amt]\<rparr>)
      else Inl TransferFailed)"
  by (simp add: transfer_def deliverable_def Let_def)

lemma transfer_recv_agree:
  assumes "\<forall>to amt s'. status (trades s' tid) \<noteq> Locked \<longrightarrow> r to amt s' = recv e to amt s'"
    and "status (trades s tid) \<noteq> Locked"
  shows "transfer (e\<lparr>recv := r\<rparr>) to amt s = transfer e to amt s"
  using assms by (simp add: transfer_def Let_def)

lemma match_participants_3:
  "match_participants sg [b, s, a] (v, l) =
     (if sg \<in> {b, s, a} \<and> sg \<noteq> l then (v + 1, sg) else (v, l))"
  by simp

lemma validSignatures_eq:
  "validSignatures t s1 s2 =
     (if s1 \<in> {buyer t, seller t, arbiter t} \<and> s1 \<noteq> 0
      then (if s2 \<in> {buyer t, seller t, arbiter t} \<and> s2 \<noteq> s1 then 2 else 1)
      else (if s2 \<in> {buyer t, seller t, arbiter t} \<and> s2 \<noteq> 0 then 1 else 0))"
  unfolding validSignatures_def count_signers.simps match_participants_3
  by simp

lemma validSignatures_iff:
  "2 \<le> validSignatures t s1 s2 \<longleftrightarrow>
     s1 \<noteq> 0 \<and> s1 \<in> {buyer t, seller t, arbiter t} \<and> s2 \<in> {buyer t, seller t, arbiter t} \<and> s1 \<noteq> s2"
  unfolding validSignatures_eq by (simp; blast)

lemma nonReentrant_entered: "entered s \<Longrightarrow> nonReentrant body s = Inl ReentrantCall"
  by (simp add: nonReentrant_def)

lemma entered_reverts:
  assumes "entered s"
  shows "withdrawWithPreimage e tid pre sig1 sig2 s = Inl ReentrantCall"
    and "resolveDispute e tid rcp sig1 sig2 s = Inl ReentrantCall"
    and "refund e now tid s = Inl ReentrantCall"
  using assms
  by (simp_all add: withdrawWithPreimage_def resolveDispute_def refund_def nonReentrant_entered)

lemma lock_eq:
  "lock c tid sl ar hl lockTime s =
     (if msg_value c = 0 then Inl ZeroAmount
      else if status (trades s tid) \<noteq> Uninitialized then Inl DuplicateTradeId
      else if sl = 0 \<or> ar = 0 then Inl InvalidAddress
      else if 2 ^ 256 \<le> unat (block_timestamp c) + unat lockTime then Inl ArithmeticOverflow
      else Inr (s\<lparr>trades := (trades s)(tid :=
                    \<lparr>buyer = msg_sender c, seller = sl, arbiter = ar, amount = msg_value c,
                     hashLock = hl, timelock = block_timestamp c + lockTime, status = Locked\<rparr>),
                  balance := balance s + unat (msg_value c),
                  trace := trace s @ [Emit (LockedEvent tid (msg_sender c) sl (msg_value c) hl
                                             (block_timestamp c + lockTime))]\<rparr>))"
  by (simp add: lock_def Let_def word_neq_0_conv [symmetric])

text \<open>
  The three resolving functions spelled out for a call that enters from outside (the guard
  is clear): the checks in the order of the source, and the state a successful call leaves.
\<close>

lemma refund_eq:
  assumes "\<not> entered s"
  shows "refund e now tid s =
     (if status (trades s tid) \<noteq> Locked then Inl InvalidState
      else if \<not> timelock (trades s tid) \<le> now then Inl TimelockNotExpired
      else if \<not> deliverable e (buyer (trades s tid)) (amount (trades s tid))
                   (set_status tid Refunded (s\<lparr>entered := True\<rparr>)) then Inl TransferFailed
      else Inr (s\<lparr>trades := (trades s)(tid := (trades s tid)\<lparr>status := Refunded\<rparr>),
                 balance := balance s - unat (amount (trades s tid)),
                 trace := trace s @ [Transfer (buyer (trades s tid)) (amount (trades s tid)),
                                     Emit (RefundedEvent tid (buyer (trades s tid)))]\<rparr>))"
  using assms
  by (simp add: refund_def nonReentrant_def transfer_eq Let_def emit_def set_status_def)

lemma withdraw_eq:
  assumes "\<not> entered s"
  shows "withdrawWithPreimage e tid pre sig1 sig2 s =
     (if status (trades s tid) \<noteq> Locked then Inl InvalidState
      else if sha256 e (encode_bytes32 pre) \<noteq> hashLock (trades s tid) then Inl InvalidPreimage
      else case recover e (preimage_digest e tid pre) sig1 of Inl err \<Rightarrow> Inl err | Inr a1 \<Rightarrow>
          (case recover e (preimage_digest e tid pre) sig2 of Inl err \<Rightarrow> Inl err | Inr a2 \<Rightarrow>
           if \<not> ((a1 = buyer (trades s tid) \<or> a2 = buyer (trades s tid)) \<and>
                  (a1 = seller (trades s tid) \<or> a2 = seller (trades s tid)))
           then Inl MissingRequiredSignature
           else if \<not> deliverable e (seller (trades s tid)) (amount (trades s tid))
                   (set_status tid Completed (s\<lparr>entered := True\<rparr>)) then Inl TransferFailed
           else Inr (s\<lparr>trades := (trades s)(tid := (trades s tid)\<lparr>status := Completed\<rparr>),
                 balance := balance s - unat (amount (trades s tid)),
                 trace := trace s @ [Transfer (seller (trades s tid)) (amount (trades s tid)),
                    Emit (Withdrawn tid (seller (trades s tid)) ''Preimage + MultiSig'')]\<rparr>)))"
  using assms
  by (simp add: withdrawWithPreimage_def nonReentrant_def transfer_eq Let_def emit_def set_status_def
           split: sum.splits; blast)

lemma resolve_eq:
  assumes "\<not> entered s"
  shows "resolveDispute e tid rcp sig1 sig2 s =
     (if status (trades s tid) \<noteq> Locked then Inl InvalidState
      else if \<not> (rcp = buyer (trades s tid) \<or> rcp = seller (trades s tid)) then Inl InvalidRecipient
      else case recover e (arbitration_digest e tid rcp) sig1 of Inl err \<Rightarrow> Inl err | Inr a1 \<Rightarrow>
          (case recover e (arbitration_digest e tid rcp) sig2 of Inl err \<Rightarrow> Inl err | Inr a2 \<Rightarrow>
           if \<not> 2 \<le> validSignatures (trades s tid) a1 a2
           then Inl InsufficientDistinctSignatures
           else if \<not> deliverable e rcp (amount (trades s tid))
                   (set_status tid Completed (s\<lparr>entered := True\<rparr>)) then Inl TransferFailed
           else Inr (s\<lparr>trades := (trades s)(tid := (trades s tid)\<lparr>status := Completed\<rparr>),
                 balance := balance s - unat (amount (trades s tid)),
                 trace := trace s @ [Transfer rcp (amount (trades s tid)),
                    Emit (Withdrawn tid rcp ''Arbitration'')]\<rparr>)))"
  using assms
  by (simp add: resolveDispute_def nonReentrant_def transfer_eq Let_def emit_def set_status_def
           split: sum.splits)

lemma withdraw_result:
  assumes "\<not> entered s"
  shows "(\<exists>err. withdrawWithPreimage e tid pre sig1 sig2 s = Inl err) \<or>
         withdrawWithPreimage e tid pre sig1 sig2 s =
           Inr (s\<lparr>trades := (trades s)(tid := (trades s tid)\<lparr>status := Completed\<rparr>),
                 balance := balance s - unat (amount (trades s tid)),
                 trace := trace s @ [Transfer (seller (trades s tid)) (amount (trades s tid)),
                    Emit (Withdrawn tid (seller (trades s tid)) ''Preimage + MultiSig'')]\<rparr>)"
  using assms by (simp add: withdraw_eq split: sum.split)

lemma resolve_result:
  assumes "\<not> entered s"
  shows "(\<exists>err. resolveDispute e tid rcp sig1 sig2 s = Inl err) \<or>
         resolveDispute e tid rcp sig1 sig2 s =
           Inr (s\<lparr>trades := (trades s)(tid := (trades s tid)\<lparr>status := Completed\<rparr>),
                 balance := balance s - unat (amount (trades s tid)),
                 trace := trace s @ [Transfer rcp (amount (trades s tid)),
                    Emit (Withdrawn tid rcp ''Arbitration'')]\<rparr>)"
  using assms by (simp add: resolve_eq split: sum.split)

lemma not_locked_reverts:
  assumes "\<not> entered s" and "status (trades s tid) \<noteq> Locked"
  shows "withdrawWithPreimage e tid pre sig1 sig2 s = Inl InvalidState"
    and "resolveDispute e tid rcp sig1 sig2 s = Inl InvalidState"
    and "refund e now tid s = Inl InvalidState"
  using assms by (simp_all add: withdraw_eq resolve_eq refund_eq)



section \<open>Basic facts: calls and runs\<close>

text \<open>What one call does to the status of one trade.\<close>

lemma step_status:
  "status (trades (step e c s) tid) = status (trades s tid)
   \<or> (status (trades s tid) = Uninitialized \<and> status (trades (step e c s) tid) = Locked \<and>
      entry_of c = LockFn \<and> trade_of c = tid)
   \<or> (status (trades s tid) = Locked \<and> status (trades (step e c s) tid) = Completed \<and>
      (entry_of c = WithdrawFn \<or> entry_of c = ResolveFn) \<and> trade_of c = tid)
   \<or> (status (trades s tid) = Locked \<and> status (trades (step e c s) tid) = Refunded \<and>
      entry_of c = RefundFn \<and> trade_of c = tid)"
proof (cases c)
  case (Lock cl t sl ar hl lt)
  then show ?thesis by (simp add: step_def lock_eq)
next
  case (WithdrawWithPreimage t pre sig1 sig2)
  show ?thesis
  proof (cases "entered s")
    case True
    then show ?thesis using WithdrawWithPreimage by (simp add: step_def entered_reverts)
  next
    case False
    then show ?thesis using WithdrawWithPreimage
      by (simp add: step_def withdraw_eq split: sum.splits)
  qed
next
  case (ResolveDispute t rcp sig1 sig2)
  show ?thesis
  proof (cases "entered s")
    case True
    then show ?thesis using ResolveDispute by (simp add: step_def entered_reverts)
  next
    case False
    then show ?thesis using ResolveDispute
      by (simp add: step_def resolve_eq split: sum.splits)
  qed
next
  case (Refund now t)
  show ?thesis
  proof (cases "entered s")
    case True
    then show ?thesis using Refund by (simp add: step_def entered_reverts)
  next
    case False
    then show ?thesis using Refund
      by (simp add: step_def refund_eq)
  qed
qed

lemma step_initialized:
  "status (trades s tid) \<noteq> Uninitialized \<Longrightarrow> status (trades (step e c s) tid) \<noteq> Uninitialized"
  using step_status [of e c s tid] by auto

lemma run_initialized:
  "status (trades s tid) \<noteq> Uninitialized \<Longrightarrow> status (trades (run e cs s) tid) \<noteq> Uninitialized"
  by (induction cs arbitrary: s) (simp_all add: step_initialized)

lemma step_entered: "\<not> entered s \<Longrightarrow> \<not> entered (step e c s)"
proof (cases c)
  case (Lock cl t sl ar hl lt)
  assume "\<not> entered s"
  then show ?thesis using Lock by (simp add: step_def lock_eq)
next
  case (WithdrawWithPreimage t pre sig1 sig2)
  assume "\<not> entered s"
  then show ?thesis using WithdrawWithPreimage
    by (simp add: step_def withdraw_eq split: sum.splits)
next
  case (ResolveDispute t rcp sig1 sig2)
  assume "\<not> entered s"
  then show ?thesis using ResolveDispute
    by (simp add: step_def resolve_eq split: sum.splits)
next
  case (Refund now t)
  assume "\<not> entered s"
  then show ?thesis using Refund by (simp add: step_def refund_eq)
qed

lemma run_entered: "\<not> entered s \<Longrightarrow> \<not> entered (run e cs s)"
  by (induction cs arbitrary: s) (simp_all add: step_entered)

lemma succeeds_not_entered:
  assumes "entry_of c \<noteq> LockFn" and "succeeds (exec e c s)"
  shows "\<not> entered s"
  using assms by (cases c; cases "entered s") (simp_all add: entered_reverts)

lemma pays_out_status:
  assumes "pays_out e tid c s"
  shows "status (trades s tid) = Locked \<and>
         (status (trades (step e c s) tid) = Completed \<or> status (trades (step e c s) tid) = Refunded)"
proof -
  have ne: "\<not> entered s" and t: "trade_of c = tid" and ok: "succeeds (exec e c s)"
    and nl: "entry_of c \<noteq> LockFn"
    using assms succeeds_not_entered [of c e s] by (auto simp: pays_out_def)
  show ?thesis
  proof (cases c)
    case (Lock cl t' sl ar hl lt)
    then show ?thesis using nl by simp
  next
    case (WithdrawWithPreimage t' pre sig1 sig2)
    then show ?thesis using ne t ok
      by (auto simp: step_def withdraw_eq split: sum.splits if_splits)
  next
    case (ResolveDispute t' rcp sig1 sig2)
    then show ?thesis using ne t ok
      by (auto simp: step_def resolve_eq split: sum.splits if_splits)
  next
    case (Refund now t')
    then show ?thesis using ne t ok
      by (auto simp: step_def refund_eq split: if_splits)
  qed
qed

lemma step_terminal:
  assumes "status (trades s tid) = Completed \<or> status (trades s tid) = Refunded"
  shows "status (trades (step e c s) tid) = status (trades s tid)"
  using step_status [of e c s tid] assms by auto

lemma run_terminal:
  assumes "status (trades s tid) = Completed \<or> status (trades s tid) = Refunded"
  shows "status (trades (run e cs s) tid) = status (trades s tid)"
  using assms
proof (induction cs arbitrary: s)
  case Nil
  then show ?case by simp
next
  case (Cons c cs)
  have "status (trades (step e c s) tid) = status (trades s tid)"
    using Cons.prems by (rule step_terminal)
  then show ?case using Cons.IH [of "step e c s"] Cons.prems by auto
qed

lemma payouts_terminal:
  assumes "status (trades s tid) = Completed \<or> status (trades s tid) = Refunded"
  shows "payouts e tid cs s = 0"
  using assms
proof (induction cs arbitrary: s)
  case Nil
  then show ?case by simp
next
  case (Cons c cs)
  have "\<not> pays_out e tid c s"
    using pays_out_status [of e tid c s] Cons.prems by auto
  moreover have "status (trades (step e c s) tid) = status (trades s tid)"
    using Cons.prems by (rule step_terminal)
  ultimately show ?case using Cons.IH [of "step e c s"] Cons.prems by auto
qed

lemma payouts_le_1: "payouts e tid cs s \<le> 1"
proof (induction cs arbitrary: s)
  case Nil
  then show ?case by simp
next
  case (Cons c cs)
  show ?case
  proof (cases "pays_out e tid c s")
    case True
    then have "payouts e tid cs (step e c s) = 0"
      using pays_out_status [of e tid c s] by (intro payouts_terminal) auto
    then show ?thesis using True by simp
  next
    case False
    then show ?thesis using Cons.IH [of "step e c s"] by simp
  qed
qed

section \<open>Basic facts: the balance covers what is locked\<close>

lemma locked_total_update:
  "locked_total (s\<lparr>trades := (trades s)(tid := t)\<rparr>) + escrowed (trades s tid)
     = locked_total s + escrowed t"
proof -
  have fin: "finite (UNIV - {tid})" by simp
  have "locked_total s = escrowed (trades s tid) + (\<Sum>x\<in>UNIV - {tid}. escrowed (trades s x))"
    unfolding locked_total_def by (rule sum.remove) simp_all
  moreover have "locked_total (s\<lparr>trades := (trades s)(tid := t)\<rparr>)
      = escrowed t + (\<Sum>x\<in>UNIV - {tid}. escrowed (((trades s)(tid := t)) x))"
    unfolding locked_total_def by (simp add: sum.remove [where x = tid])
  moreover have "(\<Sum>x\<in>UNIV - {tid}. escrowed (((trades s)(tid := t)) x))
      = (\<Sum>x\<in>UNIV - {tid}. escrowed (trades s x))"
    by (rule sum.cong) simp_all
  ultimately show ?thesis by simp
qed

lemma locked_total_fields [simp]:
  "locked_total (s\<lparr>balance := b\<rparr>) = locked_total s"
  "locked_total (s\<lparr>trace := tr\<rparr>) = locked_total s"
  "locked_total (s\<lparr>entered := en\<rparr>) = locked_total s"
  by (simp_all add: locked_total_def)

lemma escrowed_le_total: "escrowed (trades s tid) \<le> locked_total s"
  unfolding locked_total_def by (rule member_le_sum) simp_all

lemma step_solvent:
  assumes "locked_total s \<le> balance s"
  shows "locked_total (step e c s) \<le> balance (step e c s)"
proof (cases "succeeds (exec e c s)")
  case False
  then show ?thesis using assms by (simp add: step_def succeeds_def split: sum.splits)
next
  case ok: True
  show ?thesis
  proof (cases c)
    case (Lock cl t sl ar hl lt)
    let ?new = "\<lparr>buyer = msg_sender cl, seller = sl, arbiter = ar, amount = msg_value cl,
                 hashLock = hl, timelock = block_timestamp cl + lt, status = Locked\<rparr>"
    have u: "status (trades s t) = Uninitialized" and
      st: "step e c s = s\<lparr>trades := (trades s)(t := ?new),
                  balance := balance s + unat (msg_value cl),
                  trace := trace s @ [Emit (LockedEvent t (msg_sender cl) sl (msg_value cl) hl
                                             (block_timestamp cl + lt))]\<rparr>"
      using ok Lock by (auto simp: step_def lock_eq split: if_splits)
    have "locked_total (s\<lparr>trades := (trades s)(t := ?new)\<rparr>) + escrowed (trades s t)
            = locked_total s + escrowed ?new"
      by (rule locked_total_update)
    then show ?thesis using assms u by (simp add: st escrowed_def)
  next
    case (WithdrawWithPreimage t pre sig1 sig2)
    have ne: "\<not> entered s" using ok WithdrawWithPreimage succeeds_not_entered [of c e s] by simp
    have l: "status (trades s t) = Locked"
      using pays_out_status [of e t c s] ok WithdrawWithPreimage by (simp add: pays_out_def)
    have st: "step e c s = s\<lparr>trades := (trades s)(t := (trades s t)\<lparr>status := Completed\<rparr>),
                 balance := balance s - unat (amount (trades s t)),
                 trace := trace s @ [Transfer (seller (trades s t)) (amount (trades s t)),
                    Emit (Withdrawn t (seller (trades s t)) ''Preimage + MultiSig'')]\<rparr>"
      using withdraw_result [OF ne, of e t pre sig1 sig2] ok WithdrawWithPreimage
      by (auto simp: step_def)
    have "locked_total (s\<lparr>trades := (trades s)(t := (trades s t)\<lparr>status := Completed\<rparr>)\<rparr>)
            + escrowed (trades s t) = locked_total s + escrowed ((trades s t)\<lparr>status := Completed\<rparr>)"
      by (rule locked_total_update)
    then show ?thesis using assms l escrowed_le_total [of s t] by (simp add: st escrowed_def)
  next
    case (ResolveDispute t rcp sig1 sig2)
    have ne: "\<not> entered s" using ok ResolveDispute succeeds_not_entered [of c e s] by simp
    have l: "status (trades s t) = Locked"
      using pays_out_status [of e t c s] ok ResolveDispute by (simp add: pays_out_def)
    have st: "step e c s = s\<lparr>trades := (trades s)(t := (trades s t)\<lparr>status := Completed\<rparr>),
                 balance := balance s - unat (amount (trades s t)),
                 trace := trace s @ [Transfer rcp (amount (trades s t)),
                    Emit (Withdrawn t rcp ''Arbitration'')]\<rparr>"
      using resolve_result [OF ne, of e t rcp sig1 sig2] ok ResolveDispute
      by (auto simp: step_def)
    have "locked_total (s\<lparr>trades := (trades s)(t := (trades s t)\<lparr>status := Completed\<rparr>)\<rparr>)
            + escrowed (trades s t) = locked_total s + escrowed ((trades s t)\<lparr>status := Completed\<rparr>)"
      by (rule locked_total_update)
    then show ?thesis using assms l escrowed_le_total [of s t] by (simp add: st escrowed_def)
  next
    case (Refund now t)
    have ne: "\<not> entered s" using ok Refund succeeds_not_entered [of c e s] by simp
    have l: "status (trades s t) = Locked"
      using pays_out_status [of e t c s] ok Refund by (simp add: pays_out_def)
    have st: "step e c s = s\<lparr>trades := (trades s)(t := (trades s t)\<lparr>status := Refunded\<rparr>),
                 balance := balance s - unat (amount (trades s t)),
                 trace := trace s @ [Transfer (buyer (trades s t)) (amount (trades s t)),
                                     Emit (RefundedEvent t (buyer (trades s t)))]\<rparr>"
      using ok Refund ne by (auto simp: step_def refund_eq split: if_splits)
    have "locked_total (s\<lparr>trades := (trades s)(t := (trades s t)\<lparr>status := Refunded\<rparr>)\<rparr>)
            + escrowed (trades s t) = locked_total s + escrowed ((trades s t)\<lparr>status := Refunded\<rparr>)"
      by (rule locked_total_update)
    then show ?thesis using assms l escrowed_le_total [of s t] by (simp add: st escrowed_def)
  qed
qed

lemma run_solvent: "locked_total s \<le> balance s \<Longrightarrow> locked_total (run e cs s) \<le> balance (run e cs s)"
  by (induction cs arbitrary: s) (simp_all add: step_solvent)

lemma init_solvent: "locked_total init \<le> balance init"
  by (simp add: locked_total_def escrowed_def init_def zero_trade_def)

text \<open>
  In every state the contract reaches from its deployment, the balance covers the amount
  of a \<open>Locked\<close> trade: there a transfer of that amount can only fail on the side of
  the recipient.
\<close>

lemma reachable_covers:
  assumes "status (trades (run e cs init) tid) = Locked"
  shows "unat (amount (trades (run e cs init) tid)) \<le> balance (run e cs init)"
proof -
  have "escrowed (trades (run e cs init) tid) \<le> locked_total (run e cs init)"
    by (rule escrowed_le_total)
  also have "\<dots> \<le> balance (run e cs init)"
    using init_solvent by (rule run_solvent)
  finally show ?thesis using assms by (simp add: escrowed_def)
qed

lemma reachable_deliverable:
  assumes "status (trades (run e cs init) tid) = Locked"
  shows "deliverable e to (amount (trades (run e cs init) tid))
           (set_status tid st ((run e cs init)\<lparr>entered := True\<rparr>)) \<longleftrightarrow>
         recv e to (amount (trades (run e cs init) tid))
           ((set_status tid st ((run e cs init)\<lparr>entered := True\<rparr>))
              \<lparr>balance := balance (run e cs init) - unat (amount (trades (run e cs init) tid))\<rparr>)"
  using reachable_covers [OF assms] by (simp add: deliverable_def)

section \<open>Basic facts: the test environment\<close>

lemmas test_defs = test_env_def test_state_def test_trade_def test_call_def zero_trade_def
  self_state_def self_trade_def refusing_env_def init_def

text \<open>Both test states are what \<^verbatim>\<open>lock\<close> leaves on a freshly deployed contract.\<close>

lemma test_state_locked: "lock test_call 1 0x5 0xA 7 3600 init = Inr test_state"
  by (simp add: lock_eq test_defs)

lemma self_state_locked: "lock test_call 1 0xB 0xA 7 3600 init = Inr self_state"
  by (simp add: lock_eq test_defs)

lemma test_recover:
  "recover test_env h [0xB] = Inr 0xB" "recover test_env h [0x5] = Inr 0x5"
  "recover test_env h [0xA] = Inr 0xA" "recover test_env h [0xC] = Inr 0xC"
  "recover refusing_env h [0xB] = Inr 0xB" "recover refusing_env h [0x5] = Inr 0x5"
  "recover refusing_env h [0xA] = Inr 0xA" "recover refusing_env h [0xC] = Inr 0xC"
  by (simp_all add: recover_def test_env_def refusing_env_def)

lemma test_simps [simp]:
  "entered test_state = False" "balance test_state = 1000"
  "trades test_state 1 = test_trade"
  "trace test_state = [Emit (LockedEvent 1 0xB 0x5 1000 7 3650)]"
  "entered self_state = False" "balance self_state = 1000"
  "trades self_state 1 = self_trade"
  "trace self_state = [Emit (LockedEvent 1 0xB 0xB 1000 7 3650)]"
  "recv test_env to amt s = True" "recv refusing_env to amt s = False"
  "sha256 test_env x = 7" "sha256 refusing_env x = 7"
  by (simp_all add: test_defs)







lemma sep_simps [simp]:
  "recv sep_env to amt s = True" "sha256 sep_env x = 7" "keccak256 sep_env = toy_hash"
  by (simp_all add: sep_env_def)

section \<open>The status of a trade moves once\<close>

text \<open>
  Claim C1: whatever the call and the state, the status of a trade after the call is the
  status before it, or it went from \<open>Uninitialized\<close> to \<open>Locked\<close> by a \<^verbatim>\<open>lock\<close> of
  that trade, or from \<open>Locked\<close> to \<open>Completed\<close> by a \<^verbatim>\<open>withdrawWithPreimage\<close> or a
  \<^verbatim>\<open>resolveDispute\<close> of that trade, or from \<open>Locked\<close> to \<open>Refunded\<close> by a
  \<^verbatim>\<open>refund\<close> of that trade. Each of the three resolving functions, called from outside
  (the guard is clear, as it is in every state that calls lead to from the deployment) on
  a trade that is not \<open>Locked\<close>, fails with \<open>InvalidState\<close>, and leaves the whole
  state as it was. A terminal status stays through every sequence of calls, and in every
  sequence of calls from every state at most one call pays the trade out.
\<close>

theorem status_one_shot:
  "(status (trades (step e c s) tid) = status (trades s tid)
    \<or> (status (trades s tid) = Uninitialized \<and> status (trades (step e c s) tid) = Locked \<and>
       entry_of c = LockFn \<and> trade_of c = tid)
    \<or> (status (trades s tid) = Locked \<and> status (trades (step e c s) tid) = Completed \<and>
       (entry_of c = WithdrawFn \<or> entry_of c = ResolveFn) \<and> trade_of c = tid)
    \<or> (status (trades s tid) = Locked \<and> status (trades (step e c s) tid) = Refunded \<and>
       entry_of c = RefundFn \<and> trade_of c = tid))
   \<and> (\<not> entered s \<and> status (trades s tid) \<noteq> Locked \<longrightarrow>
        withdrawWithPreimage e tid pre sig1 sig2 s = Inl InvalidState \<and>
        resolveDispute e tid rcp sig1 sig2 s = Inl InvalidState \<and>
        refund e now tid s = Inl InvalidState)
   \<and> (status (trades (run e cs0 init) tid) \<noteq> Locked \<longrightarrow>
        withdrawWithPreimage e tid pre sig1 sig2 (run e cs0 init) = Inl InvalidState \<and>
        resolveDispute e tid rcp sig1 sig2 (run e cs0 init) = Inl InvalidState \<and>
        refund e now tid (run e cs0 init) = Inl InvalidState)
   \<and> (entry_of c \<noteq> LockFn \<and> trade_of c = tid \<and> status (trades s tid) \<noteq> Locked \<longrightarrow>
        step e c s = s)
   \<and> (status (trades s tid) = Completed \<or> status (trades s tid) = Refunded \<longrightarrow>
        status (trades (run e cs s) tid) = status (trades s tid))
   \<and> payouts e tid cs s \<le> 1"
proof -
  have "\<not> entered init" by (simp add: init_def)
  then have R: "\<not> entered (run e cs0 init)" by (rule run_entered)
  have C: "step e c s = s"
    if "entry_of c \<noteq> LockFn" "trade_of c = tid" "status (trades s tid) \<noteq> Locked"
  proof (cases "succeeds (exec e c s)")
    case True
    then have "pays_out e tid c s" using that by (simp add: pays_out_def)
    then show ?thesis using pays_out_status [of e tid c s] that by simp
  next
    case False
    then show ?thesis by (simp add: step_def succeeds_def split: sum.splits)
  qed
  show ?thesis
    using step_status [of e c s tid] not_locked_reverts [of s tid e]
      not_locked_reverts [OF R, of tid e] C
      run_terminal [of s tid e cs] payouts_le_1 [of e tid cs s]
    by blast
qed

text \<open>
  The theorem on the trade of the test file (scenario 3 of the specification): after the
  refund the trade is \<open>Refunded\<close>, each resolving function fails on it with
  \<open>InvalidState\<close>, a new \<^verbatim>\<open>lock\<close> under its id does not bring it back, and of three
  resolving calls only the first pays.
\<close>

theorem status_one_shot_witness:
  "status (trades test_state 1) = Locked \<and>
   status (trades (step test_env (Refund 4000 1) test_state) 1) = Refunded \<and>
   \<not> entered (step test_env (Refund 4000 1) test_state) \<and>
   withdrawWithPreimage test_env 1 9 [0xB] [0x5] (step test_env (Refund 4000 1) test_state)
     = Inl InvalidState \<and>
   resolveDispute test_env 1 0xB [0xB] [0x5] (step test_env (Refund 4000 1) test_state)
     = Inl InvalidState \<and>
   refund test_env 5000 1 (step test_env (Refund 4000 1) test_state) = Inl InvalidState \<and>
   step test_env (Refund 5000 1) (step test_env (Refund 4000 1) test_state)
     = step test_env (Refund 4000 1) test_state \<and>
   status (trades (run test_env [Lock test_call 1 0xC 0xC 8 10, Refund 5000 1]
                     (step test_env (Refund 4000 1) test_state)) 1) = Refunded \<and>
   payouts test_env 1 [Refund 4000 1, Refund 5000 1, WithdrawWithPreimage 1 9 [0xB] [0x5]]
     test_state = 1"
proof -
  let ?s = "step test_env (Refund 4000 1) test_state"
  have r: "status (trades ?s 1) = Refunded" and ne: "\<not> entered ?s"
    by (simp_all add: step_def refund_eq deliverable_def test_trade_def)
  have p: "payouts test_env 1 [Refund 4000 1, Refund 5000 1, WithdrawWithPreimage 1 9 [0xB] [0x5]]
     test_state = 1"
    by (simp add: pays_out_def step_def refund_eq withdraw_eq deliverable_def test_trade_def)
  show ?thesis
    using r ne p
      status_one_shot [where s = ?s and tid = 1 and e = test_env and c = "Refund 5000 1"
        and pre = 9 and ?sig1.0 = "[0xB]" and ?sig2.0 = "[0x5]" and rcp = "0xB" and now = 5000
        and cs = "[Lock test_call 1 0xC 0xC 8 10, Refund 5000 1]"]
    by (simp add: test_trade_def)
qed

section \<open>Arbitration: two of three\<close>

text \<open>
  Claim C2 says that \<^verbatim>\<open>resolveDispute\<close> on a \<open>Locked\<close> trade with a recipient among
  buyer and seller succeeds if and only if two distinct recovered signers are
  participants. As in \<^verbatim>\<open>refund\<close>, the transfer can still make the call revert: here
  buyer \<open>0xB\<close> and arbiter \<open>0xA\<close> both sign for the recipient \<open>0xB\<close>, who refuses the
  payment.
\<close>

theorem resolveDispute_refused_counterexample:
  "lock test_call 1 0x5 0xA 7 3600 init = Inr test_state \<and>
   \<not> entered test_state \<and> status (trades test_state 1) = Locked \<and>
   buyer (trades test_state 1) = 0xB \<and> arbiter (trades test_state 1) = 0xA \<and>
   recover refusing_env (arbitration_digest refusing_env 1 0xB) [0xB] = Inr 0xB \<and>
   recover refusing_env (arbitration_digest refusing_env 1 0xB) [0xA] = Inr 0xA \<and>
   resolveDispute refusing_env 1 0xB [0xB] [0xA] test_state = Inl TransferFailed"
  by (simp add: test_state_locked resolve_eq test_recover validSignatures_eq deliverable_def
        test_trade_def)

text \<open>
  Claim C2, amended: a call of \<^verbatim>\<open>resolveDispute\<close> from outside, on a \<open>Locked\<close> trade
  and with a recipient among buyer and seller, succeeds if and only if the two signatures
  recover to two distinct identities that both belong to buyer, seller and arbiter, and
  the transfer of the amount to the recipient goes through. When both signatures recover
  to the same identity the call fails with \<open>InsufficientDistinctSignatures\<close>: the loop
  does not count a signer again for the signature that follows.
\<close>

theorem resolveDispute_two_distinct:
  assumes "\<not> entered s" and "status (trades s tid) = Locked"
    and "rcp = buyer (trades s tid) \<or> rcp = seller (trades s tid)"
  shows "(succeeds (resolveDispute e tid rcp sig1 sig2 s) \<longleftrightarrow>
            (\<exists>a1 a2. recover e (arbitration_digest e tid rcp) sig1 = Inr a1 \<and>
                     recover e (arbitration_digest e tid rcp) sig2 = Inr a2 \<and>
                     a1 \<in> {buyer (trades s tid), seller (trades s tid), arbiter (trades s tid)} \<and>
                     a2 \<in> {buyer (trades s tid), seller (trades s tid), arbiter (trades s tid)} \<and>
                     a1 \<noteq> a2) \<and>
            deliverable e rcp (amount (trades s tid))
              (set_status tid Completed (s\<lparr>entered := True\<rparr>)))
       \<and> (\<forall>a. recover e (arbitration_digest e tid rcp) sig1 = Inr a \<and>
               recover e (arbitration_digest e tid rcp) sig2 = Inr a \<longrightarrow>
               resolveDispute e tid rcp sig1 sig2 s = Inl InsufficientDistinctSignatures)"
proof -
  let ?d = "arbitration_digest e tid rcp"
  let ?t = "trades s tid"
  have A: "succeeds (resolveDispute e tid rcp sig1 sig2 s) \<longleftrightarrow>
            (\<exists>a1 a2. recover e ?d sig1 = Inr a1 \<and> recover e ?d sig2 = Inr a2 \<and>
                     a1 \<in> {buyer ?t, seller ?t, arbiter ?t} \<and>
                     a2 \<in> {buyer ?t, seller ?t, arbiter ?t} \<and> a1 \<noteq> a2) \<and>
            deliverable e rcp (amount ?t) (set_status tid Completed (s\<lparr>entered := True\<rparr>))"
  proof (cases "recover e ?d sig1")
    case (Inl err)
    then show ?thesis using assms by (simp add: resolve_eq)
  next
    case a1: (Inr a1)
    show ?thesis
    proof (cases "recover e ?d sig2")
      case (Inl err)
      then show ?thesis using assms a1 by (simp add: resolve_eq)
    next
      case a2: (Inr a2)
      have "a1 \<noteq> 0" using a1 by (rule recover_nonzero)
      then show ?thesis using assms a1 a2
        by (simp add: resolve_eq validSignatures_iff)
    qed
  qed
  have B: "resolveDispute e tid rcp sig1 sig2 s = Inl InsufficientDistinctSignatures"
    if "recover e ?d sig1 = Inr a" "recover e ?d sig2 = Inr a" for a
    using assms that by (simp add: resolve_eq validSignatures_iff)
  show ?thesis using A B by blast
qed

text \<open>
  The theorem on the trade of the test file: buyer and arbiter together succeed (the
  test "Should allow arbitration with 2-of-3 signatures"), the seller twice does not.
\<close>

theorem resolveDispute_two_distinct_witness:
  "\<not> entered test_state \<and> status (trades test_state 1) = Locked \<and>
   (0xB :: address) = buyer (trades test_state 1) \<and>
   succeeds (resolveDispute test_env 1 0xB [0xB] [0xA] test_state) \<and>
   resolveDispute test_env 1 0xB [0x5] [0x5] test_state = Inl InsufficientDistinctSignatures"
  using resolveDispute_two_distinct [where s = test_state and tid = 1 and rcp = "0xB" and e = test_env
      and ?sig1.0 = "[0xB]" and ?sig2.0 = "[0xA]"]
    resolveDispute_two_distinct [where s = test_state and tid = 1 and rcp = "0xB" and e = test_env
      and ?sig1.0 = "[0x5]" and ?sig2.0 = "[0x5]"]
  by (simp add: test_recover deliverable_def test_trade_def)

section \<open>Withdrawal with the preimage\<close>

text \<open>
  Claim C3 says that the two recovered signers must form the pair of buyer and seller,
  and that the buyer's signature submitted twice fails. The code asks for less: one of the
  two signers is the buyer, and one of the two is the seller. \<^verbatim>\<open>lock\<close> accepts a
  seller that is the caller, and on such a trade the buyer's signature, submitted twice,
  satisfies both tests.
\<close>

theorem withdraw_buyer_twice_counterexample:
  "lock test_call 1 0xB 0xA 7 3600 init = Inr self_state \<and>
   \<not> entered self_state \<and> status (trades self_state 1) = Locked \<and>
   buyer (trades self_state 1) = 0xB \<and>
   recover test_env (preimage_digest test_env 1 9) [0xB] = Inr 0xB \<and>
   succeeds (withdrawWithPreimage test_env 1 9 [0xB] [0xB] self_state)"
  by (simp add: self_state_locked withdraw_eq test_recover deliverable_def self_trade_def)

text \<open>
  Claim C3, amended: a call of \<^verbatim>\<open>withdrawWithPreimage\<close> from outside on a \<open>Locked\<close>
  trade succeeds if and only if \<open>sha256\<close> of the preimage equals the stored hash lock,
  one of the two recovered identities equals the buyer and one of them equals the seller,
  and the transfer of the amount to the seller goes through. When buyer and seller differ,
  the condition on the signers is that the two recovered identities, as an unordered pair,
  are buyer and seller, and the buyer's signature submitted twice fails.
\<close>

theorem withdraw_buyer_and_seller:
  assumes "\<not> entered s" and "status (trades s tid) = Locked"
  shows "(succeeds (withdrawWithPreimage e tid pre sig1 sig2 s) \<longleftrightarrow>
            sha256 e (encode_bytes32 pre) = hashLock (trades s tid) \<and>
            (\<exists>a1 a2. recover e (preimage_digest e tid pre) sig1 = Inr a1 \<and>
                     recover e (preimage_digest e tid pre) sig2 = Inr a2 \<and>
                     (a1 = buyer (trades s tid) \<or> a2 = buyer (trades s tid)) \<and>
                     (a1 = seller (trades s tid) \<or> a2 = seller (trades s tid))) \<and>
            deliverable e (seller (trades s tid)) (amount (trades s tid))
              (set_status tid Completed (s\<lparr>entered := True\<rparr>)))
       \<and> (buyer (trades s tid) \<noteq> seller (trades s tid) \<longrightarrow>
           (succeeds (withdrawWithPreimage e tid pre sig1 sig2 s) \<longleftrightarrow>
            sha256 e (encode_bytes32 pre) = hashLock (trades s tid) \<and>
            (\<exists>a1 a2. recover e (preimage_digest e tid pre) sig1 = Inr a1 \<and>
                     recover e (preimage_digest e tid pre) sig2 = Inr a2 \<and>
                     {a1, a2} = {buyer (trades s tid), seller (trades s tid)}) \<and>
            deliverable e (seller (trades s tid)) (amount (trades s tid))
              (set_status tid Completed (s\<lparr>entered := True\<rparr>))))
       \<and> (buyer (trades s tid) \<noteq> seller (trades s tid) \<and>
            recover e (preimage_digest e tid pre) sig1 = Inr (buyer (trades s tid)) \<and>
            recover e (preimage_digest e tid pre) sig2 = Inr (buyer (trades s tid)) \<longrightarrow>
            \<not> succeeds (withdrawWithPreimage e tid pre sig1 sig2 s))"
proof -
  let ?d = "preimage_digest e tid pre"
  let ?t = "trades s tid"
  let ?ok = "\<lambda>a1 a2. (a1 = buyer ?t \<or> a2 = buyer ?t) \<and> (a1 = seller ?t \<or> a2 = seller ?t)"
  have A: "succeeds (withdrawWithPreimage e tid pre sig1 sig2 s) \<longleftrightarrow>
            sha256 e (encode_bytes32 pre) = hashLock ?t \<and>
            (\<exists>a1 a2. recover e ?d sig1 = Inr a1 \<and> recover e ?d sig2 = Inr a2 \<and> ?ok a1 a2) \<and>
            deliverable e (seller ?t) (amount ?t) (set_status tid Completed (s\<lparr>entered := True\<rparr>))"
  proof (cases "recover e ?d sig1")
    case (Inl err)
    then show ?thesis using assms by (simp add: withdraw_eq)
  next
    case a1: (Inr a1)
    show ?thesis
    proof (cases "recover e ?d sig2")
      case (Inl err)
      then show ?thesis using assms a1 by (simp add: withdraw_eq)
    next
      case a2: (Inr a2)
      show ?thesis using assms a1 a2 by (simp add: withdraw_eq)
    qed
  qed
  have P: "?ok a1 a2 \<longleftrightarrow> {a1, a2} = {buyer ?t, seller ?t}"
    if "buyer ?t \<noteq> seller ?t" for a1 a2
    using that by (auto simp: doubleton_eq_iff)
  have B: "succeeds (withdrawWithPreimage e tid pre sig1 sig2 s) \<longleftrightarrow>
            sha256 e (encode_bytes32 pre) = hashLock ?t \<and>
            (\<exists>a1 a2. recover e ?d sig1 = Inr a1 \<and> recover e ?d sig2 = Inr a2 \<and>
                     {a1, a2} = {buyer ?t, seller ?t}) \<and>
            deliverable e (seller ?t) (amount ?t) (set_status tid Completed (s\<lparr>entered := True\<rparr>))"
    if "buyer ?t \<noteq> seller ?t"
    unfolding A using P [OF that] by simp
  have C: "\<not> succeeds (withdrawWithPreimage e tid pre sig1 sig2 s)"
    if "buyer ?t \<noteq> seller ?t" "recover e ?d sig1 = Inr (buyer ?t)"
       "recover e ?d sig2 = Inr (buyer ?t)"
    unfolding A using that by auto
  show ?thesis using A B C by blast
qed

text \<open>
  The theorem on the trade of the test file, where buyer and seller differ: buyer and
  seller together succeed in either order, the buyer twice does not.
\<close>

theorem withdraw_buyer_and_seller_witness:
  "\<not> entered test_state \<and> status (trades test_state 1) = Locked \<and>
   buyer (trades test_state 1) \<noteq> seller (trades test_state 1) \<and>
   succeeds (withdrawWithPreimage test_env 1 9 [0xB] [0x5] test_state) \<and>
   succeeds (withdrawWithPreimage test_env 1 9 [0x5] [0xB] test_state) \<and>
   \<not> succeeds (withdrawWithPreimage test_env 1 9 [0xB] [0xB] test_state)"
  using withdraw_buyer_and_seller [where s = test_state and tid = 1 and e = test_env and pre = 9
      and ?sig1.0 = "[0xB]" and ?sig2.0 = "[0x5]"]
    withdraw_buyer_and_seller [where s = test_state and tid = 1 and e = test_env and pre = 9
      and ?sig1.0 = "[0x5]" and ?sig2.0 = "[0xB]"]
    withdraw_buyer_and_seller [where s = test_state and tid = 1 and e = test_env and pre = 9
      and ?sig1.0 = "[0xB]" and ?sig2.0 = "[0xB]"]
  by (simp add: test_recover deliverable_def test_trade_def)

section \<open>The two digests\<close>



section \<open>The timelock refund\<close>

text \<open>
  Claim C5 says that \<^verbatim>\<open>refund\<close> succeeds if and only if the trade is \<open>Locked\<close> and the
  timelock has passed. The code has one more way to fail: its last step but one is
  \<^verbatim>\<open>payable(trade.buyer).transfer(trade.amount)\<close>, and a buyer that is a contract
  refusing the payment makes the whole call revert. Here the trade of the test file is
  \<open>Locked\<close>, the time is past the timelock, and the call reverts.
\<close>

theorem refund_refused_counterexample:
  "lock test_call 1 0x5 0xA 7 3600 init = Inr test_state \<and>
   \<not> entered test_state \<and> status (trades test_state 1) = Locked \<and>
   timelock (trades test_state 1) \<le> 4000 \<and>
   refund refusing_env 4000 1 test_state = Inl TransferFailed"
  by (simp add: test_state_locked refund_eq deliverable_def test_trade_def)

text \<open>
  Claim C5, amended: a call of \<^verbatim>\<open>refund\<close> from outside succeeds if and only if the
  trade is \<open>Locked\<close>, the current time is at least the timelock, and the transfer of the
  amount to the buyer goes through. On a \<open>Locked\<close> trade before expiry it fails with
  \<open>TimelockNotExpired\<close>, whoever calls (the function does not read \<^verbatim>\<open>msg.sender\<close>).
  On success the trade's status is \<open>Refunded\<close> and nothing else of the ledger has
  changed, the full amount has left the contract's balance, and the call has issued
  exactly the transfer of the amount to the buyer followed by the event
  \<^verbatim>\<open>Refunded(tradeId, buyer)\<close>.
\<close>

theorem refund_correct:
  assumes "\<not> entered s"
  shows "(succeeds (refund e now tid s) \<longleftrightarrow>
            status (trades s tid) = Locked \<and> timelock (trades s tid) \<le> now \<and>
            deliverable e (buyer (trades s tid)) (amount (trades s tid))
              (set_status tid Refunded (s\<lparr>entered := True\<rparr>)))
       \<and> (status (trades s tid) = Locked \<and> now < timelock (trades s tid) \<longrightarrow>
            refund e now tid s = Inl TimelockNotExpired)
       \<and> (\<forall>s'. refund e now tid s = Inr s' \<longrightarrow>
            trades s' = (trades s)(tid := (trades s tid)\<lparr>status := Refunded\<rparr>) \<and>
            balance s' + unat (amount (trades s tid)) = balance s \<and>
            trace s' = trace s @ [Transfer (buyer (trades s tid)) (amount (trades s tid)),
                                  Emit (RefundedEvent tid (buyer (trades s tid)))] \<and>
            \<not> entered s')"
  using assms
  by (auto simp: refund_eq split: if_splits dest: deliverable_covered)

text \<open>
  The theorem on the trade of the test file: past the timelock the refund succeeds and
  pays the buyer \<open>0xB\<close>; at time \<open>100\<close>, before the timelock \<open>3650\<close>, it fails.
\<close>

theorem refund_correct_witness:
  "\<not> entered test_state \<and> succeeds (refund test_env 4000 1 test_state) \<and>
   refund test_env 100 1 test_state = Inl TimelockNotExpired \<and>
   status (trades (step test_env (Refund 4000 1) test_state) 1) = Refunded \<and>
   balance (step test_env (Refund 4000 1) test_state) = 0 \<and>
   trace (step test_env (Refund 4000 1) test_state) =
     [Emit (LockedEvent 1 0xB 0x5 1000 7 3650), Transfer 0xB 1000, Emit (RefundedEvent 1 0xB)]"
  using refund_correct [of test_state test_env 4000 1] refund_correct [of test_state test_env 100 1]
  by (simp add: step_def refund_eq deliverable_def test_defs)

section \<open>Locking\<close>

text \<open>
  Claim C6 says that \<^verbatim>\<open>lock\<close> fails whenever seller or arbiter equals the caller.
  The code has no such test: the only \<^verbatim>\<open>require\<close> on the two addresses is that
  they are not zero. Here the caller \<open>0xB\<close> names itself as the seller and the
  trade is created.
\<close>

theorem lock_seller_is_caller_counterexample:
  "msg_sender test_call = 0xB \<and> lock test_call 1 0xB 0xA 7 3600 init = Inr self_state"
  by (simp add: lock_eq test_defs)

text \<open>
  Claim C6, amended: \<^verbatim>\<open>lock\<close> fails whenever seller or arbiter is the null
  identity, with \<open>InvalidAddress\<close> when the amount is positive and the trade id is fresh
  (the two tests that come first). It creates a trade exactly when the amount is
  positive, the trade id is fresh, seller and arbiter are not null and
  \<^verbatim>\<open>block.timestamp + _lockTime\<close> does not overflow; whether seller or arbiter
  equals the caller plays no part.
\<close>

theorem lock_preconditions:
  "(sl = 0 \<or> ar = 0 \<longrightarrow> \<not> succeeds (lock c tid sl ar hl lockTime s))
   \<and> (0 < msg_value c \<and> status (trades s tid) = Uninitialized \<and> (sl = 0 \<or> ar = 0) \<longrightarrow>
        lock c tid sl ar hl lockTime s = Inl InvalidAddress)
   \<and> (succeeds (lock c tid sl ar hl lockTime s) \<longleftrightarrow>
        0 < msg_value c \<and> status (trades s tid) = Uninitialized \<and> sl \<noteq> 0 \<and> ar \<noteq> 0 \<and>
        unat (block_timestamp c) + unat lockTime < 2 ^ 256)"
  by (auto simp: lock_eq word_neq_0_conv)

text \<open>
  The theorem on a second trade id: a null seller and a null arbiter are refused, the
  parties of the test file are accepted, and so is the caller as seller and arbiter.
\<close>

theorem lock_preconditions_witness:
  "lock test_call 2 0 0xA 7 3600 test_state = Inl InvalidAddress \<and>
   lock test_call 2 0x5 0 7 3600 test_state = Inl InvalidAddress \<and>
   succeeds (lock test_call 2 0x5 0xA 7 3600 test_state) \<and>
   succeeds (lock test_call 2 0xB 0xB 7 3600 test_state)"
  using lock_preconditions [where sl = 0 and ar = "0xA" and c = test_call and tid = 2 and hl = 7
      and lockTime = 3600 and s = test_state]
    lock_preconditions [where sl = "0x5" and ar = 0 and c = test_call and tid = 2 and hl = 7
      and lockTime = 3600 and s = test_state]
    lock_preconditions [where sl = "0x5" and ar = "0xA" and c = test_call and tid = 2 and hl = 7
      and lockTime = 3600 and s = test_state]
    lock_preconditions [where sl = "0xB" and ar = "0xB" and c = test_call and tid = 2 and hl = 7
      and lockTime = 3600 and s = test_state]
  by (simp add: test_defs)

text \<open>
  Claim C7 says that the second of two \<^verbatim>\<open>lock\<close> calls with the same trade id fails
  with \<open>DuplicateTradeId\<close> whatever its other arguments. The code tests the amount
  first: a second call that sends no value fails with \<open>ZeroAmount\<close>.
\<close>

theorem lock_duplicate_zero_counterexample:
  "lock test_call 1 0x5 0xA 7 3600 init = Inr test_state \<and>
   lock (test_call\<lparr>msg_value := 0\<rparr>) 1 0x5 0xA 7 3600 test_state = Inl ZeroAmount"
  by (simp add: lock_eq test_defs)

text \<open>
  Claim C7, amended: \<^verbatim>\<open>lock\<close> with an amount of zero always fails with
  \<open>ZeroAmount\<close>. For every pair of \<^verbatim>\<open>lock\<close> calls with the same trade id where the
  first succeeded, whatever calls were made in between, the second fails and has no
  side effect (the state after it is the state before it), whatever its other arguments:
  with \<open>DuplicateTradeId\<close> when it sends an amount, with \<open>ZeroAmount\<close> when it
  sends none.
\<close>

theorem lock_zero_and_duplicate:
  "(msg_value c = 0 \<longrightarrow> lock c tid sl ar hl lockTime s = Inl ZeroAmount)
   \<and> (lock c1 tid sl1 ar1 hl1 lockTime1 s = Inr s1 \<longrightarrow>
        lock c2 tid sl2 ar2 hl2 lockTime2 (run e cs s1) =
          Inl (if msg_value c2 = 0 then ZeroAmount else DuplicateTradeId) \<and>
        step e (Lock c2 tid sl2 ar2 hl2 lockTime2) (run e cs s1) = run e cs s1)"
proof -
  have A: "msg_value c = 0 \<Longrightarrow> lock c tid sl ar hl lockTime s = Inl ZeroAmount"
    by (simp add: lock_eq)
  have B: "lock c2 tid sl2 ar2 hl2 lockTime2 (run e cs s1) =
          Inl (if msg_value c2 = 0 then ZeroAmount else DuplicateTradeId) \<and>
        step e (Lock c2 tid sl2 ar2 hl2 lockTime2) (run e cs s1) = run e cs s1"
    if "lock c1 tid sl1 ar1 hl1 lockTime1 s = Inr s1"
  proof -
    have "status (trades s1 tid) \<noteq> Uninitialized"
      using that by (auto simp: lock_eq split: if_splits)
    then have "status (trades (run e cs s1) tid) \<noteq> Uninitialized"
      by (rule run_initialized)
    then show ?thesis by (simp add: lock_eq step_def)
  qed
  show ?thesis using A B by blast
qed

text \<open>
  The theorem on the trade of the test file: after the lock and a refund of trade \<open>1\<close>,
  another account cannot lock under the same id.
\<close>

theorem lock_zero_and_duplicate_witness:
  "lock (test_call\<lparr>msg_value := 0\<rparr>) 2 0x5 0xA 7 3600 init = Inl ZeroAmount \<and>
   lock test_call 1 0x5 0xA 7 3600 init = Inr test_state \<and>
   lock (test_call\<lparr>msg_sender := 0xC, msg_value := 5\<rparr>) 1 0xC 0xB 8 10
     (run test_env [Refund 4000 1] test_state) = Inl DuplicateTradeId \<and>
   step test_env (Lock (test_call\<lparr>msg_sender := 0xC, msg_value := 5\<rparr>) 1 0xC 0xB 8 10)
     (run test_env [Refund 4000 1] test_state) = run test_env [Refund 4000 1] test_state"
  using lock_zero_and_duplicate [where c = "test_call\<lparr>msg_value := 0\<rparr>" and tid = 2 and sl = "0x5"
      and ar = "0xA" and hl = 7 and lockTime = 3600 and s = init and ?c1.0 = test_call
      and ?sl1.0 = "0x5" and ?ar1.0 = "0xA" and ?hl1.0 = 7 and ?lockTime1.0 = 3600
      and ?s1.0 = test_state and ?c2.0 = "test_call\<lparr>msg_sender := 0xC, msg_value := 5\<rparr>"
      and ?sl2.0 = "0xC" and ?ar2.0 = "0xB" and ?hl2.0 = 8 and ?lockTime2.0 = 10
      and e = test_env and cs = "[Refund 4000 1]"]
    lock_zero_and_duplicate [where c = "test_call\<lparr>msg_value := 0\<rparr>" and tid = 1 and sl = "0x5"
      and ar = "0xA" and hl = 7 and lockTime = 3600 and s = init and ?c1.0 = test_call
      and ?sl1.0 = "0x5" and ?ar1.0 = "0xA" and ?hl1.0 = 7 and ?lockTime1.0 = 3600
      and ?s1.0 = test_state and ?c2.0 = "test_call\<lparr>msg_sender := 0xC, msg_value := 5\<rparr>"
      and ?sl2.0 = "0xC" and ?ar2.0 = "0xB" and ?hl2.0 = 8 and ?lockTime2.0 = 10
      and e = test_env and cs = "[Refund 4000 1]"]
  by (simp add: lock_eq test_defs)

section \<open>The status is written before the transfer\<close>

text \<open>
  Claim C8: in each of the three resolving functions the write of the terminal status
  comes before the transfer, so code of the recipient that runs during the transfer and
  looks at the trade never finds it \<open>Locked\<close>. First, the outcome of a call does not
  depend on what the recipient would do on a state in which the trade is \<open>Locked\<close>:
  replacing the recipients' code \<open>recv e\<close> by any \<open>r\<close> that agrees with it on the
  states where the trade is not \<open>Locked\<close> changes the result of no call. Second, when a
  call from outside succeeds, the state on which the recipient accepted the payment is
  the one with the status already \<open>Completed\<close> (or \<open>Refunded\<close>), the reentrancy
  guard set and the amount gone from the balance.
\<close>

theorem status_written_before_transfer:
  "((\<forall>to amt s'. status (trades s' tid) \<noteq> Locked \<longrightarrow> r to amt s' = recv e to amt s') \<longrightarrow>
      withdrawWithPreimage (e\<lparr>recv := r\<rparr>) tid pre sig1 sig2 s
        = withdrawWithPreimage e tid pre sig1 sig2 s \<and>
      resolveDispute (e\<lparr>recv := r\<rparr>) tid rcp sig1 sig2 s = resolveDispute e tid rcp sig1 sig2 s \<and>
      refund (e\<lparr>recv := r\<rparr>) now tid s = refund e now tid s)
   \<and> (\<not> entered s \<and> succeeds (withdrawWithPreimage e tid pre sig1 sig2 s) \<longrightarrow>
        recv e (seller (trades s tid)) (amount (trades s tid))
          ((set_status tid Completed (s\<lparr>entered := True\<rparr>))
             \<lparr>balance := balance s - unat (amount (trades s tid))\<rparr>))
   \<and> (\<not> entered s \<and> succeeds (resolveDispute e tid rcp sig1 sig2 s) \<longrightarrow>
        recv e rcp (amount (trades s tid))
          ((set_status tid Completed (s\<lparr>entered := True\<rparr>))
             \<lparr>balance := balance s - unat (amount (trades s tid))\<rparr>))
   \<and> (\<not> entered s \<and> succeeds (refund e now tid s) \<longrightarrow>
        recv e (buyer (trades s tid)) (amount (trades s tid))
          ((set_status tid Refunded (s\<lparr>entered := True\<rparr>))
             \<lparr>balance := balance s - unat (amount (trades s tid))\<rparr>))"
proof -
  have T: "transfer (e\<lparr>recv := r\<rparr>) to amt (set_status tid st s0) = transfer e to amt (set_status tid st s0)"
    if "\<forall>to amt s'. status (trades s' tid) \<noteq> Locked \<longrightarrow> r to amt s' = recv e to amt s'"
      and "st \<noteq> Locked" for to amt st s0
    using that by (intro transfer_recv_agree [where tid = tid]) simp_all
  have A: "(\<forall>to amt s'. status (trades s' tid) \<noteq> Locked \<longrightarrow> r to amt s' = recv e to amt s') \<longrightarrow>
      withdrawWithPreimage (e\<lparr>recv := r\<rparr>) tid pre sig1 sig2 s
        = withdrawWithPreimage e tid pre sig1 sig2 s \<and>
      resolveDispute (e\<lparr>recv := r\<rparr>) tid rcp sig1 sig2 s = resolveDispute e tid rcp sig1 sig2 s \<and>
      refund (e\<lparr>recv := r\<rparr>) now tid s = refund e now tid s"
  proof
    assume h: "\<forall>to amt s'. status (trades s' tid) \<noteq> Locked \<longrightarrow> r to amt s' = recv e to amt s'"
    show "withdrawWithPreimage (e\<lparr>recv := r\<rparr>) tid pre sig1 sig2 s
        = withdrawWithPreimage e tid pre sig1 sig2 s \<and>
      resolveDispute (e\<lparr>recv := r\<rparr>) tid rcp sig1 sig2 s = resolveDispute e tid rcp sig1 sig2 s \<and>
      refund (e\<lparr>recv := r\<rparr>) now tid s = refund e now tid s"
      by (simp add: withdrawWithPreimage_def resolveDispute_def refund_def Let_def T [OF h]
            cong: if_cong sum.case_cong)
  qed
  have W: "\<not> entered s \<and> succeeds (withdrawWithPreimage e tid pre sig1 sig2 s) \<longrightarrow>
        recv e (seller (trades s tid)) (amount (trades s tid))
          ((set_status tid Completed (s\<lparr>entered := True\<rparr>))
             \<lparr>balance := balance s - unat (amount (trades s tid))\<rparr>)"
    by (auto simp: withdraw_eq deliverable_def split: if_splits sum.splits)
  have R: "\<not> entered s \<and> succeeds (resolveDispute e tid rcp sig1 sig2 s) \<longrightarrow>
        recv e rcp (amount (trades s tid))
          ((set_status tid Completed (s\<lparr>entered := True\<rparr>))
             \<lparr>balance := balance s - unat (amount (trades s tid))\<rparr>)"
    by (auto simp: resolve_eq deliverable_def split: if_splits sum.splits)
  have F: "\<not> entered s \<and> succeeds (refund e now tid s) \<longrightarrow>
        recv e (buyer (trades s tid)) (amount (trades s tid))
          ((set_status tid Refunded (s\<lparr>entered := True\<rparr>))
             \<lparr>balance := balance s - unat (amount (trades s tid))\<rparr>)"
    by (auto simp: refund_eq deliverable_def split: if_splits)
  show ?thesis
    by (intro conjI) (rule A, rule W, rule R, rule F)
qed

text \<open>
  The theorem on the trade of the test file, with recipients that refuse the payment
  whenever they find trade \<open>1\<close> still \<open>Locked\<close>: the three calls go through as they
  do with recipients that always accept.
\<close>

theorem status_written_before_transfer_witness:
  "succeeds (withdrawWithPreimage test_env 1 9 [0xB] [0x5] test_state) \<and>
   withdrawWithPreimage (test_env\<lparr>recv := (\<lambda>to amt s'. status (trades s' 1) \<noteq> Locked)\<rparr>)
       1 9 [0xB] [0x5] test_state
     = withdrawWithPreimage test_env 1 9 [0xB] [0x5] test_state \<and>
   succeeds (resolveDispute test_env 1 0xB [0xB] [0x5] test_state) \<and>
   resolveDispute (test_env\<lparr>recv := (\<lambda>to amt s'. status (trades s' 1) \<noteq> Locked)\<rparr>)
       1 0xB [0xB] [0x5] test_state
     = resolveDispute test_env 1 0xB [0xB] [0x5] test_state \<and>
   succeeds (refund test_env 4000 1 test_state) \<and>
   refund (test_env\<lparr>recv := (\<lambda>to amt s'. status (trades s' 1) \<noteq> Locked)\<rparr>) 4000 1 test_state
     = refund test_env 4000 1 test_state"
proof -
  have ok: "succeeds (withdrawWithPreimage test_env 1 9 [0xB] [0x5] test_state)"
    "succeeds (resolveDispute test_env 1 0xB [0xB] [0x5] test_state)"
    "succeeds (refund test_env 4000 1 test_state)"
    by (simp_all add: withdraw_eq resolve_eq refund_eq test_recover deliverable_def
          test_trade_def validSignatures_eq)
  show ?thesis
    using ok status_written_before_transfer [where tid = 1 and e = test_env
        and r = "\<lambda>to amt s'. status (trades s' 1) \<noteq> Locked" and pre = 9 and ?sig1.0 = "[0xB]"
        and ?sig2.0 = "[0x5]" and s = test_state and rcp = "0xB" and now = 4000]
    by simp
qed

section \<open>The events of the two withdrawals\<close>

text \<open>
  Claim C9 says that the \<^verbatim>\<open>Withdrawn\<close> event of a withdrawal with the preimage carries
  the method string "preimage" (and "arbitration" for an arbitration). The code, and the
  repository's test of it, have "Preimage + MultiSig" and "Arbitration". Here is the
  withdrawal of the test file.
\<close>

theorem withdrawn_method_counterexample:
  "lock test_call 1 0x5 0xA 7 3600 init = Inr test_state \<and>
   succeeds (withdrawWithPreimage test_env 1 9 [0xB] [0x5] test_state) \<and>
   trace (step test_env (WithdrawWithPreimage 1 9 [0xB] [0x5]) test_state) =
     [Emit (LockedEvent 1 0xB 0x5 1000 7 3650), Transfer 0x5 1000,
      Emit (Withdrawn 1 0x5 ''Preimage + MultiSig'')] \<and>
   Emit (Withdrawn 1 0x5 ''preimage'')
     \<notin> set (trace (step test_env (WithdrawWithPreimage 1 9 [0xB] [0x5]) test_state))"
  by (simp add: test_state_locked step_def withdraw_eq test_recover deliverable_def test_trade_def)

text \<open>
  Claim C9, amended: a successful \<^verbatim>\<open>withdrawWithPreimage\<close> issues the transfer of the
  amount to the seller and then emits \<^verbatim>\<open>Withdrawn\<close> with the trade id, the seller and
  the method string "Preimage + MultiSig", and nothing else; a successful
  \<^verbatim>\<open>resolveDispute\<close> issues the transfer to the chosen recipient and then emits
  \<^verbatim>\<open>Withdrawn\<close> with the trade id, the recipient and the method string "Arbitration".
\<close>

theorem withdrawn_events:
  "(withdrawWithPreimage e tid pre sig1 sig2 s = Inr s' \<longrightarrow>
      trace s' = trace s @
        [Transfer (seller (trades s tid)) (amount (trades s tid)),
         Emit (Withdrawn tid (seller (trades s tid)) ''Preimage + MultiSig'')])
   \<and> (resolveDispute e tid rcp sig1 sig2 s = Inr s' \<longrightarrow>
      trace s' = trace s @
        [Transfer rcp (amount (trades s tid)), Emit (Withdrawn tid rcp ''Arbitration'')])"
proof (cases "entered s")
  case True
  then show ?thesis by (simp add: entered_reverts)
next
  case False
  show ?thesis
    using withdraw_result [OF False, of e tid pre sig1 sig2]
      resolve_result [OF False, of e tid rcp sig1 sig2]
    by auto
qed

text \<open>
  The theorem on the two withdrawals of the test file.
\<close>

theorem withdrawn_events_witness:
  "succeeds (withdrawWithPreimage test_env 1 9 [0xB] [0x5] test_state) \<and>
   trace (step test_env (WithdrawWithPreimage 1 9 [0xB] [0x5]) test_state) =
     trace test_state @ [Transfer 0x5 1000, Emit (Withdrawn 1 0x5 ''Preimage + MultiSig'')] \<and>
   succeeds (resolveDispute test_env 1 0xB [0xB] [0xA] test_state) \<and>
   trace (step test_env (ResolveDispute 1 0xB [0xB] [0xA]) test_state) =
     trace test_state @ [Transfer 0xB 1000, Emit (Withdrawn 1 0xB ''Arbitration'')]"
proof -
  obtain s1 where s1: "withdrawWithPreimage test_env 1 9 [0xB] [0x5] test_state = Inr s1"
    by (simp add: withdraw_eq test_recover deliverable_def test_trade_def)
  obtain s2 where s2: "resolveDispute test_env 1 0xB [0xB] [0xA] test_state = Inr s2"
    by (simp add: resolve_eq test_recover deliverable_def test_trade_def validSignatures_eq)
  show ?thesis
    using s1 s2
      withdrawn_events [where e = test_env and tid = 1 and pre = 9 and ?sig1.0 = "[0xB]"
        and ?sig2.0 = "[0x5]" and s = test_state and s' = s1 and rcp = "0xB"]
      withdrawn_events [where e = test_env and tid = 1 and pre = 9 and ?sig1.0 = "[0xB]"
        and ?sig2.0 = "[0xA]" and s = test_state and s' = s2 and rcp = "0xB"]
    by (simp add: step_def test_trade_def)
qed

section \<open>Parties that coincide\<close>

text \<open>
  Claim C10: \<^verbatim>\<open>lock\<close> asks nothing of buyer, seller and arbiter beyond seller and
  arbiter not being null. With a positive amount, a fresh trade id and no overflow of the
  timelock, it accepts the caller as seller, the caller as arbiter, one address as seller
  and arbiter, and the caller as both. And on a \<open>Locked\<close> trade whose seller is its
  buyer, \<^verbatim>\<open>withdrawWithPreimage\<close> called from outside with the right preimage accepts
  two signatures that both recover to that one identity (provided the transfer to the
  seller goes through).
\<close>

theorem lock_accepts_equal_parties:
  "(0 < msg_value c \<and> status (trades s tid) = Uninitialized \<and>
    unat (block_timestamp c) + unat lockTime < 2 ^ 256 \<and> msg_sender c \<noteq> 0 \<and> x \<noteq> 0 \<longrightarrow>
      succeeds (lock c tid (msg_sender c) x hl lockTime s) \<and>
      succeeds (lock c tid x (msg_sender c) hl lockTime s) \<and>
      succeeds (lock c tid x x hl lockTime s) \<and>
      succeeds (lock c tid (msg_sender c) (msg_sender c) hl lockTime s))
   \<and> (\<not> entered s \<and> status (trades s tid) = Locked \<and>
       seller (trades s tid) = buyer (trades s tid) \<and>
       sha256 e (encode_bytes32 pre) = hashLock (trades s tid) \<and>
       recover e (preimage_digest e tid pre) sig1 = Inr (buyer (trades s tid)) \<and>
       recover e (preimage_digest e tid pre) sig2 = Inr (buyer (trades s tid)) \<and>
       deliverable e (seller (trades s tid)) (amount (trades s tid))
         (set_status tid Completed (s\<lparr>entered := True\<rparr>)) \<longrightarrow>
       succeeds (withdrawWithPreimage e tid pre sig1 sig2 s))"
  by (simp add: lock_eq withdraw_eq word_neq_0_conv)

text \<open>
  The theorem on the test file's buyer \<open>0xB\<close>: locking with itself as the seller
  gives \<open>self_state\<close>, and there the buyer's signature, given twice, withdraws.
\<close>

theorem lock_accepts_equal_parties_witness:
  "succeeds (lock test_call 1 (msg_sender test_call) 0xA 7 3600 init) \<and>
   succeeds (lock test_call 1 0xA (msg_sender test_call) 7 3600 init) \<and>
   succeeds (lock test_call 1 0xA 0xA 7 3600 init) \<and>
   step test_env (Lock test_call 1 (msg_sender test_call) 0xA 7 3600) init = self_state \<and>
   seller (trades self_state 1) = buyer (trades self_state 1) \<and>
   recover test_env (preimage_digest test_env 1 9) [0xB] = Inr (buyer (trades self_state 1)) \<and>
   succeeds (withdrawWithPreimage test_env 1 9 [0xB] [0xB] self_state)"
  using lock_accepts_equal_parties [where c = test_call and s = init and tid = 1 and x = "0xA"
      and lockTime = 3600 and hl = 7 and e = test_env and pre = 9 and ?sig1.0 = "[0xB]" and ?sig2.0 = "[0xB]"]
    lock_accepts_equal_parties [where c = test_call and s = self_state and tid = 1 and x = "0xA"
      and lockTime = 3600 and hl = 7 and e = test_env and pre = 9 and ?sig1.0 = "[0xB]" and ?sig2.0 = "[0xB]"]
  by (simp add: test_recover deliverable_def self_trade_def step_def lock_eq)
     (simp add: test_defs)

end
